theory Spec2Isabelle
  imports Main "HOL-Library.Word"
begin

unbundle bit_operations_syntax

section \<open>Memory, compile-time checks and undefined behaviour\<close>

text \<open>
  The library \<^verbatim>\<open>mcu_safe_array.h\<close> is a family of class templates over raw pointers.
  Its operations are pointer arithmetic, reads and writes through pointers, and
  \<^verbatim>\<open>static_assert\<close>s on the template parameters.

  \<^item> A pointer \<^verbatim>\<open>T *\<close> is an address counted in elements of \<^verbatim>\<open>T\<close>, so that \<^verbatim>\<open>p + k\<close> is
    addition, as C++ pointer arithmetic on \<^verbatim>\<open>T *\<close> is.
  \<^item> The memory is a partial map from addresses to elements: a cell that is not mapped
    is not part of any live object, and touching it is undefined behaviour.
  \<^item> A template parameter of type \<^verbatim>\<open>size_t\<close> is a natural number. The only subtraction
    on them, \<^verbatim>\<open>End - Start\<close>, is computed after \<^verbatim>\<open>End >= Start\<close> has been asserted, and
    \<^verbatim>\<open>L * sizeof(T)\<close> is the size of an object that exists, so neither wraps around.
  \<^item> A failed \<^verbatim>\<open>static_assert\<close> and undefined behaviour are both results of the model:
    every operation returns \<open>error + 'a\<close>.
\<close>

type_synonym addr = nat
type_synonym size_t = nat
type_synonym 'a heap = "addr \<Rightarrow> 'a option"

datatype error = StaticAssert string | UndefinedBehaviour

definition NULL :: addr where
  "NULL = 0"

definition ebind :: "error + 'a \<Rightarrow> ('a \<Rightarrow> error + 'b) \<Rightarrow> error + 'b" where
  "ebind r f = (case r of Inl e \<Rightarrow> Inl e | Inr x \<Rightarrow> f x)"

definition static_assert :: "bool \<Rightarrow> string \<Rightarrow> error + unit" where
  "static_assert b msg = (if b then Inr () else Inl (StaticAssert msg))"

text \<open>Reading and writing one element through a pointer.\<close>

definition load :: "'a heap \<Rightarrow> addr \<Rightarrow> error + 'a" where
  "load m p = (case m p of None \<Rightarrow> Inl UndefinedBehaviour | Some v \<Rightarrow> Inr v)"

definition store :: "'a heap \<Rightarrow> addr \<Rightarrow> 'a \<Rightarrow> error + 'a heap" where
  "store m p v = (if m p = None then Inl UndefinedBehaviour else Inr (m(p \<mapsto> v)))"

text \<open>\<open>allocated m p n\<close>: the \<open>n\<close> elements from \<open>p\<close> on are live.\<close>

definition allocated :: "'a heap \<Rightarrow> addr \<Rightarrow> nat \<Rightarrow> bool" where
  "allocated m p n = (\<forall>i\<in>{0..<n}. m (p + i) \<noteq> None)"

text \<open>
  \<^verbatim>\<open>memcpy(dest, src, nbytes)\<close> from \<^verbatim>\<open>string.h\<close>, on a memory of elements of size
  \<open>szT\<close>: it moves \<open>nbytes div szT\<close> whole elements. Both regions must be live and must
  not overlap; otherwise the behaviour is undefined.
\<close>

definition copy_elems :: "'a heap \<Rightarrow> addr \<Rightarrow> addr \<Rightarrow> nat \<Rightarrow> 'a heap" where
  "copy_elems m dest src n =
     (\<lambda>a. if dest \<le> a \<and> a < dest + n then m (src + (a - dest)) else m a)"

definition memcpy :: "nat \<Rightarrow> addr \<Rightarrow> addr \<Rightarrow> size_t \<Rightarrow> 'a heap \<Rightarrow> error + 'a heap" where
  "memcpy szT dest src nbytes m =
     (let n = nbytes div szT in
      if allocated m dest n \<and> allocated m src n \<and> (dest + n \<le> src \<or> src + n \<le> dest)
      then Inr (copy_elems m dest src n)
      else Inl UndefinedBehaviour)"

text \<open>The two assertion macros.\<close>

definition SLICE_METH_ASSERTS :: "size_t \<Rightarrow> size_t \<Rightarrow> size_t \<Rightarrow> error + unit" where
  "SLICE_METH_ASSERTS Start End L =
     ebind (static_assert (Start \<le> L) ''Bad start index'') (\<lambda>_.
     ebind (static_assert (End \<le> L) ''Bad end index'') (\<lambda>_.
     static_assert (End \<ge> Start) ''Bad end index''))"

definition DATA_METH_ASSERTS :: "size_t \<Rightarrow> size_t \<Rightarrow> error + unit" where
  "DATA_METH_ASSERTS Offset L = static_assert (Offset < L) ''Bad offset''"

section \<open>CArrayPtr\<close>

record CArrayPtr =
  ptr_data :: addr
  ptr_size :: size_t

definition CArrayPtr_ctor :: "addr \<Rightarrow> size_t \<Rightarrow> CArrayPtr" where
  "CArrayPtr_ctor data sz = \<lparr>ptr_data = data, ptr_size = sz\<rparr>"

definition CArrayPtr_size :: "CArrayPtr \<Rightarrow> size_t" where
  "CArrayPtr_size this = ptr_size this"

definition CArrayPtr_data :: "CArrayPtr \<Rightarrow> addr" where
  "CArrayPtr_data this = ptr_data this"

section \<open>CSlice\<close>

text \<open>
  A \<^verbatim>\<open>CSlice<T, L>\<close> is its member \<^verbatim>\<open>_data\<close> together with the template parameter
  \<^verbatim>\<open>L\<close> of its type.
\<close>

record CSlice =
  slice_data :: addr
  slice_L :: size_t

definition CSlice_default :: "size_t \<Rightarrow> CSlice" where
  "CSlice_default L = \<lparr>slice_data = NULL, slice_L = L\<rparr>"

definition CSlice_ctor :: "size_t \<Rightarrow> addr \<Rightarrow> CSlice" where
  "CSlice_ctor L data = \<lparr>slice_data = data, slice_L = L\<rparr>"

definition CSlice_cdata :: "size_t \<Rightarrow> CSlice \<Rightarrow> error + addr" where
  "CSlice_cdata Offset this =
     ebind (DATA_METH_ASSERTS Offset (slice_L this)) (\<lambda>_.
     Inr (slice_data this + Offset))"

text \<open>\<^verbatim>\<open>operator[]\<close> yields a reference, that is the address of the element.\<close>

definition CSlice_index :: "CSlice \<Rightarrow> size_t \<Rightarrow> addr" where
  "CSlice_index this i = slice_data this + i"

text \<open>\<^verbatim>\<open>operator&\<close>\<close>

definition CSlice_addr :: "CSlice \<Rightarrow> CArrayPtr" where
  "CSlice_addr this = CArrayPtr_ctor (slice_data this) (slice_L this)"

definition CSlice_cslice :: "size_t \<Rightarrow> size_t \<Rightarrow> CSlice \<Rightarrow> error + CSlice" where
  "CSlice_cslice Start End this =
     ebind (SLICE_METH_ASSERTS Start End (slice_L this)) (\<lambda>_.
     ebind (CSlice_cdata Start this) (\<lambda>p.
     Inr (CSlice_ctor (End - Start) p)))"

definition CSlice_size :: "CSlice \<Rightarrow> size_t" where
  "CSlice_size this = slice_L this"

text \<open>
  \<^verbatim>\<open>L * sizeof(T)\<close> is \<^verbatim>\<open>size_t\<close> arithmetic in the source and wraps around for a
  slice type whose \<^verbatim>\<open>L\<close> is larger than any object. The product below does not wrap:
  it is the source's value for a slice over \<^verbatim>\<open>L\<close> live elements, which is what the
  theorems about \<^verbatim>\<open>assign\<close> and \<^verbatim>\<open>operator<<\<close> assume.
\<close>

definition CSlice_sizeBytes :: "nat \<Rightarrow> CSlice \<Rightarrow> size_t" where
  "CSlice_sizeBytes szT this = slice_L this * szT"

section \<open>Slice\<close>

text \<open>
  \<^verbatim>\<open>Slice<T, L>\<close> derives from \<^verbatim>\<open>CSlice<T, L>\<close> and adds no member: every
  \<^verbatim>\<open>Slice\<close> is a \<^verbatim>\<open>CSlice\<close>, and \<^verbatim>\<open>cslice\<close>, \<^verbatim>\<open>cdata\<close>, \<^verbatim>\<open>operator&\<close>, \<^verbatim>\<open>size\<close> and
  \<^verbatim>\<open>sizeBytes\<close> are inherited.
\<close>

type_synonym Slice = CSlice

definition Slice_data :: "size_t \<Rightarrow> Slice \<Rightarrow> error + addr" where
  "Slice_data Offset this = CSlice_cdata Offset this"

text \<open>The non-const \<^verbatim>\<open>operator[]\<close> goes through \<^verbatim>\<open>data()\<close>, that is \<^verbatim>\<open>data<0>()\<close>.\<close>

definition Slice_index :: "Slice \<Rightarrow> size_t \<Rightarrow> error + addr" where
  "Slice_index this i = ebind (Slice_data 0 this) (\<lambda>p. Inr (p + i))"

function fill_loop :: "Slice \<Rightarrow> 'a \<Rightarrow> size_t \<Rightarrow> 'a heap \<Rightarrow> error + 'a heap" where
  "fill_loop this val i m =
     (if i < slice_L this
      then (case Slice_index this i of
              Inl e \<Rightarrow> Inl e
            | Inr r \<Rightarrow> (case store m r val of
                          Inl e \<Rightarrow> Inl e
                        | Inr m' \<Rightarrow> fill_loop this val (Suc i) m'))
      else Inr m)"
  by pat_completeness auto
termination
  by (relation "measure (\<lambda>(this, val, i, m). slice_L this - i)") auto

text \<open>
  \<^verbatim>\<open>for (size_t i = 0; i < L; ++i) (*this)[i] = val;\<close>
  The body of the loop is compiled whether or not it ever runs: instantiating \<^verbatim>\<open>fill\<close>
  instantiates \<^verbatim>\<open>operator[]\<close> and with it \<^verbatim>\<open>data<0>()\<close> and its assertion, also when
  \<^verbatim>\<open>L\<close> is 0.
\<close>

definition Slice_fill :: "Slice \<Rightarrow> 'a \<Rightarrow> 'a heap \<Rightarrow> error + 'a heap" where
  "Slice_fill this val m =
     ebind (Slice_index this 0) (\<lambda>_.
     fill_loop this val 0 m)"

definition Slice_assign :: "nat \<Rightarrow> Slice \<Rightarrow> CSlice \<Rightarrow> 'a heap \<Rightarrow> error + 'a heap" where
  "Slice_assign szT this data m =
     ebind (static_assert (slice_L data \<le> slice_L this) ''Bad slice length'') (\<lambda>_.
     ebind (Slice_data 0 this) (\<lambda>d.
     ebind (CSlice_cdata 0 data) (\<lambda>c.
     memcpy szT d c (CSlice_sizeBytes szT data) m)))"

definition Slice_slice :: "size_t \<Rightarrow> size_t \<Rightarrow> Slice \<Rightarrow> error + Slice" where
  "Slice_slice Start End this =
     ebind (SLICE_METH_ASSERTS Start End (slice_L this)) (\<lambda>_.
     ebind (Slice_data 0 this) (\<lambda>p.
     Inr (CSlice_ctor (End - Start) (p + Start))))"

section \<open>Array\<close>

text \<open>
  An \<^verbatim>\<open>Array<T, L>\<close> holds its elements inline, in \<^verbatim>\<open>T _data[L]\<close>: the object is the
  address of that storage together with the template parameter \<^verbatim>\<open>L\<close>.
\<close>

record Array =
  array_data :: addr
  array_L :: size_t

definition Array_cdata :: "size_t \<Rightarrow> Array \<Rightarrow> error + addr" where
  "Array_cdata Offset this =
     ebind (DATA_METH_ASSERTS Offset (array_L this)) (\<lambda>_.
     Inr (array_data this + Offset))"

definition Array_data :: "size_t \<Rightarrow> Array \<Rightarrow> error + addr" where
  "Array_data Offset this = Array_cdata Offset this"

text \<open>
  \<^verbatim>\<open>operator[]\<close> of the array yields a reference to \<^verbatim>\<open>_data[i]\<close>. The class is packed,
  so the reference is the address of the element for element types of alignment 1,
  the byte arrays of the header; for other element types the compiler does not bind a
  reference to the packed member.
\<close>

definition Array_index :: "Array \<Rightarrow> size_t \<Rightarrow> addr" where
  "Array_index this i = array_data this + i"

definition Array_addr :: "Array \<Rightarrow> CArrayPtr" where
  "Array_addr this = CArrayPtr_ctor (array_data this) (array_L this)"

definition Array_size :: "Array \<Rightarrow> size_t" where
  "Array_size this = array_L this"

definition Array_cslice :: "size_t \<Rightarrow> size_t \<Rightarrow> Array \<Rightarrow> error + CSlice" where
  "Array_cslice Start End this =
     ebind (SLICE_METH_ASSERTS Start End (array_L this)) (\<lambda>_.
     Inr (CSlice_ctor (End - Start) (array_data this + Start)))"

definition Array_slice :: "size_t \<Rightarrow> size_t \<Rightarrow> Array \<Rightarrow> error + Slice" where
  "Array_slice Start End this =
     ebind (SLICE_METH_ASSERTS Start End (array_L this)) (\<lambda>_.
     Inr (CSlice_ctor (End - Start) (array_data this + Start)))"

text \<open>\<^verbatim>\<open>this->slice()\<close> is \<^verbatim>\<open>slice<0, L>()\<close>.\<close>

definition Array_fill :: "Array \<Rightarrow> 'a \<Rightarrow> 'a heap \<Rightarrow> error + 'a heap" where
  "Array_fill this val m =
     ebind (Array_slice 0 (array_L this) this) (\<lambda>s.
     Slice_fill s val m)"

definition Array_assign :: "nat \<Rightarrow> Array \<Rightarrow> CSlice \<Rightarrow> 'a heap \<Rightarrow> error + 'a heap" where
  "Array_assign szT this data m =
     ebind (static_assert (slice_L data \<le> array_L this) ''Bad slice length'') (\<lambda>_.
     ebind (Array_slice 0 (array_L this) this) (\<lambda>s.
     Slice_assign szT s data m))"

text \<open>
  The layout of the class: it is declared packed and its only member is \<^verbatim>\<open>T _data[L]\<close>,
  and the header asserts \<^verbatim>\<open>sizeof(Array<char, 10>) == 10\<close>.
\<close>

definition sizeof_Array :: "nat \<Rightarrow> size_t \<Rightarrow> size_t" where
  "sizeof_Array szT L = L * szT"

section \<open>The free operators and cast\<close>

text \<open>
  \<^verbatim>\<open>for (size_t i; i < L; ++i) array[i] ^= v;\<close>
  The counter has no initialiser. Its starting value is whatever the storage holds, and
  is the parameter \<open>i0\<close> here. The element is an integer of any width, and \<open>v\<close> an
  \<^verbatim>\<open>unsigned char\<close> converted to it.
\<close>

function xor_loop :: "Array \<Rightarrow> 8 word \<Rightarrow> size_t \<Rightarrow> 'a::len word heap \<Rightarrow> error + 'a word heap" where
  "xor_loop array v i m =
     (if i < array_L array
      then (case load m (Array_index array i) of
              Inl e \<Rightarrow> Inl e
            | Inr x \<Rightarrow> (case store m (Array_index array i) (x XOR ucast v) of
                          Inl e \<Rightarrow> Inl e
                        | Inr m' \<Rightarrow> xor_loop array v (Suc i) m'))
      else Inr m)"
  by pat_completeness auto
termination
  by (relation "measure (\<lambda>(array, v, i, m). array_L array - i)") auto

definition xor_assign :: "size_t \<Rightarrow> Array \<Rightarrow> 8 word \<Rightarrow> 'a::len word heap \<Rightarrow> error + 'a word heap" where
  "xor_assign i0 array v m = xor_loop array v i0 m"

text \<open>
  \<^verbatim>\<open>operator<<\<close>, on a slice and on an array. \<^verbatim>\<open>dest.slice<L2>()\<close> is
  \<^verbatim>\<open>slice<L2, L1>()\<close>, of type \<^verbatim>\<open>Slice<T, L1 - L2>\<close>.
\<close>

definition shl_Slice :: "nat \<Rightarrow> Slice \<Rightarrow> CSlice \<Rightarrow> 'a heap \<Rightarrow> error + Slice \<times> 'a heap" where
  "shl_Slice szT dest data m =
     ebind (Slice_assign szT dest data m) (\<lambda>m'.
     ebind (Slice_slice (slice_L data) (slice_L dest) dest) (\<lambda>r.
     Inr (r, m')))"

definition shl_Array :: "nat \<Rightarrow> Array \<Rightarrow> CSlice \<Rightarrow> 'a heap \<Rightarrow> error + Slice \<times> 'a heap" where
  "shl_Array szT dest data m =
     ebind (Array_slice 0 (array_L dest) dest) (\<lambda>s.
     shl_Slice szT s data m)"

text \<open>
  \<^verbatim>\<open>cast<T>\<close> of a \<^verbatim>\<open>ByteArray<L>\<close>, with \<open>szT\<close> for \<^verbatim>\<open>sizeof(T)\<close>; the elements are
  \<^verbatim>\<open>unsigned char\<close>, of size 1. The second overload casts constness away around the first.
\<close>

definition cast :: "nat \<Rightarrow> Array \<Rightarrow> error + addr" where
  "cast szT array =
     ebind (static_assert (szT \<le> sizeof_Array 1 (array_L array)) ''Unsafe cast'') (\<lambda>_.
     Array_cdata 0 array)"

definition cast_mut :: "nat \<Rightarrow> Array \<Rightarrow> error + addr" where
  "cast_mut szT array = ebind (cast szT array) (\<lambda>p. Inr p)"

section \<open>Reading results\<close>

text \<open>
  \<open>compiles r\<close>: the call was not rejected by a \<^verbatim>\<open>static_assert\<close>.
  \<open>heap_of p xs\<close>: the memory that holds the elements \<open>xs\<close> from address \<open>p\<close> on and
  nothing else.
\<close>

definition compiles :: "error + 'a \<Rightarrow> bool" where
  "compiles r = (case r of Inl (StaticAssert msg) \<Rightarrow> False | _ \<Rightarrow> True)"

definition heap_of :: "addr \<Rightarrow> 'a list \<Rightarrow> 'a heap" where
  "heap_of p xs = (\<lambda>a. if p \<le> a \<and> a < p + length xs then Some (xs ! (a - p)) else None)"

section \<open>The parsing scenario\<close>

text \<open>
  Modelled from the spec: the structured type of the parsing scenario and the scenario
  itself are test code, not part of the header. The spec gives the layout: a 37-byte
  buffer holds a tag byte followed by a 32-byte payload and a 4-byte id. Reading the
  structure through the pointer that \<^verbatim>\<open>cast\<close> returns reads the tag at offset 0, the
  payload at offsets 1 to 32 and the id at offsets 33 to 36.
\<close>

record Msg =
  msg_tag :: "8 word"
  msg_payload :: "8 word list"
  msg_id :: "8 word list"

definition sizeof_Msg :: nat where
  "sizeof_Msg = 1 + 32 + 4"

fun load_n :: "'a heap \<Rightarrow> addr \<Rightarrow> nat \<Rightarrow> error + 'a list" where
  "load_n m p 0 = Inr []"
| "load_n m p (Suc n) =
     ebind (load m p) (\<lambda>x.
     ebind (load_n m (Suc p) n) (\<lambda>xs.
     Inr (x # xs)))"

definition read_Msg :: "8 word heap \<Rightarrow> addr \<Rightarrow> error + Msg" where
  "read_Msg m p =
     ebind (load m p) (\<lambda>t.
     ebind (load_n m (p + 1) 32) (\<lambda>pl.
     ebind (load_n m (p + 33) 4) (\<lambda>i.
     Inr \<lparr>msg_tag = t, msg_payload = pl, msg_id = i\<rparr>)))"

text \<open>
  Modelled from the spec: \<^verbatim>\<open>buff << tag << filler << id\<close>, then \<^verbatim>\<open>cast<Msg>(buff)\<close>,
  then reading the structure.
\<close>

definition parse_roundtrip :: "Array \<Rightarrow> CSlice \<Rightarrow> CSlice \<Rightarrow> CSlice \<Rightarrow> 8 word heap \<Rightarrow> error + Msg" where
  "parse_roundtrip buff tag filler ident m =
     ebind (shl_Array 1 buff tag m) (\<lambda>(r1, m1).
     ebind (shl_Slice 1 r1 filler m1) (\<lambda>(r2, m2).
     ebind (shl_Slice 1 r2 ident m2) (\<lambda>(r3, m3).
     ebind (cast sizeof_Msg buff) (\<lambda>p.
     read_Msg m3 p))))"

section \<open>Basic facts\<close>

lemma ebind_simps [simp]:
  "ebind (Inl e) f = Inl e"
  "ebind (Inr x) f = f x"
  by (simp_all add: ebind_def)

lemma static_assert_simps [simp]:
  "b \<Longrightarrow> static_assert b msg = Inr ()"
  "\<not> b \<Longrightarrow> static_assert b msg = Inl (StaticAssert msg)"
  by (simp_all add: static_assert_def)

lemma compiles_simps [simp]:
  "compiles (Inr x)"
  "\<not> compiles (Inl (StaticAssert msg))"
  "compiles (Inl UndefinedBehaviour)"
  by (simp_all add: compiles_def)

declare fill_loop.simps [simp del]
declare xor_loop.simps [simp del]

lemma DATA_METH_ASSERTS_eq:
  "DATA_METH_ASSERTS Offset L =
     (if Offset < L then Inr () else Inl (StaticAssert ''Bad offset''))"
  by (simp add: DATA_METH_ASSERTS_def)

lemma SLICE_METH_ASSERTS_eq:
  "SLICE_METH_ASSERTS Start End L =
     (if Start \<le> End \<and> End \<le> L then Inr ()
      else if Start \<le> L then Inl (StaticAssert ''Bad end index'')
      else Inl (StaticAssert ''Bad start index''))"
  by (auto simp add: SLICE_METH_ASSERTS_def)

lemma CSlice_cdata_eq:
  "CSlice_cdata Offset this =
     (if Offset < slice_L this then Inr (slice_data this + Offset)
      else Inl (StaticAssert ''Bad offset''))"
  by (simp add: CSlice_cdata_def DATA_METH_ASSERTS_eq)

lemma Array_cdata_eq:
  "Array_cdata Offset this =
     (if Offset < array_L this then Inr (array_data this + Offset)
      else Inl (StaticAssert ''Bad offset''))"
  by (simp add: Array_cdata_def DATA_METH_ASSERTS_eq)

lemma Slice_index_eq:
  "Slice_index this i =
     (if 0 < slice_L this then Inr (slice_data this + i) else Inl (StaticAssert ''Bad offset''))"
  by (simp add: Slice_index_def Slice_data_def CSlice_cdata_eq)

lemma compiles_store: "compiles (store m p v)"
  by (simp add: store_def)

lemma compiles_memcpy: "compiles (memcpy szT d c n m)"
  by (simp add: memcpy_def Let_def)

lemma allocated_mono: "allocated m p n \<Longrightarrow> k \<le> n \<Longrightarrow> allocated m p k"
  by (simp add: allocated_def)

lemma xor_twice: "(x XOR y) XOR y = (x :: 'a::len word)"
  by (simp add: xor.assoc)

section \<open>Sub-views\<close>

text \<open>
  The three classes reach the start of the sub-view in three ways, and are checked
  differently for it. \<^verbatim>\<open>Array\<close> adds \<^verbatim>\<open>Start\<close> to its storage and is checked by
  \<^verbatim>\<open>SLICE_METH_ASSERTS\<close> alone. \<^verbatim>\<open>Slice::slice\<close> adds \<^verbatim>\<open>Start\<close> to \<^verbatim>\<open>data<0>()\<close>,
  which also asserts \<^verbatim>\<open>0 < L\<close>. \<^verbatim>\<open>CSlice::cslice\<close> calls \<^verbatim>\<open>cdata<Start>()\<close>, which also
  asserts \<^verbatim>\<open>Start < L\<close>.
\<close>

lemma Array_slice_eq:
  "Array_slice Start End this =
     (if Start \<le> End \<and> End \<le> array_L this
      then Inr \<lparr>slice_data = array_data this + Start, slice_L = End - Start\<rparr>
      else if Start \<le> array_L this then Inl (StaticAssert ''Bad end index'')
      else Inl (StaticAssert ''Bad start index''))"
  by (simp add: Array_slice_def SLICE_METH_ASSERTS_eq CSlice_ctor_def)

lemma Array_cslice_eq:
  "Array_cslice Start End this = Array_slice Start End this"
  by (simp add: Array_slice_def Array_cslice_def)

lemma Slice_slice_eq:
  "Slice_slice Start End this =
     (if Start \<le> End \<and> End \<le> slice_L this
      then if 0 < slice_L this
           then Inr \<lparr>slice_data = slice_data this + Start, slice_L = End - Start\<rparr>
           else Inl (StaticAssert ''Bad offset'')
      else if Start \<le> slice_L this then Inl (StaticAssert ''Bad end index'')
      else Inl (StaticAssert ''Bad start index''))"
  by (simp add: Slice_slice_def Slice_data_def SLICE_METH_ASSERTS_eq CSlice_cdata_eq CSlice_ctor_def)

lemma CSlice_cslice_eq:
  "CSlice_cslice Start End this =
     (if Start \<le> End \<and> End \<le> slice_L this
      then if Start < slice_L this
           then Inr \<lparr>slice_data = slice_data this + Start, slice_L = End - Start\<rparr>
           else Inl (StaticAssert ''Bad offset'')
      else if Start \<le> slice_L this then Inl (StaticAssert ''Bad end index'')
      else Inl (StaticAssert ''Bad start index''))"
  by (simp add: CSlice_cslice_def SLICE_METH_ASSERTS_eq CSlice_cdata_eq CSlice_ctor_def)

text \<open>
  On an \<^verbatim>\<open>Array\<close> both operations compile exactly when \<open>Start \<le> End \<le> L\<close>. On the
  two slice classes that condition is necessary, and sufficient once \<open>Start < L\<close>.
\<close>

lemma Array_subview_compiles:
  "(compiles (Array_cslice Start End a) \<longleftrightarrow> Start \<le> End \<and> End \<le> array_L a) \<and>
   (compiles (Array_slice Start End a) \<longleftrightarrow> Start \<le> End \<and> End \<le> array_L a)"
  by (auto simp add: Array_cslice_eq Array_slice_eq)

lemma Slice_subview_compiles:
  "(compiles (CSlice_cslice Start End s) \<longleftrightarrow> Start \<le> End \<and> End \<le> slice_L s \<and> Start < slice_L s) \<and>
   (compiles (Slice_slice Start End s) \<longleftrightarrow> Start \<le> End \<and> End \<le> slice_L s \<and> 0 < slice_L s)"
  by (auto simp add: CSlice_cslice_eq Slice_slice_eq)

text \<open>
  Whichever of them compiles returns the view of length \<open>End - Start\<close> whose element
  \<open>i\<close> is element \<open>Start + i\<close> of the original.
\<close>

lemma subview_elements:
  "Array_cslice Start End a = Inr r \<or> Array_slice Start End a = Inr r \<Longrightarrow>
     CSlice_size r = End - Start \<and> CSlice_index r i = Array_index a (Start + i)"
  "CSlice_cslice Start End s = Inr r \<or> Slice_slice Start End s = Inr r \<Longrightarrow>
     CSlice_size r = End - Start \<and> CSlice_index r i = CSlice_index s (Start + i)"
  by (auto simp add: Array_cslice_eq Array_slice_eq CSlice_cslice_eq Slice_slice_eq
      CSlice_size_def CSlice_index_def Array_index_def split: if_splits)

text \<open>
  C2. The claim: on \<^verbatim>\<open>CSlice\<close>, \<^verbatim>\<open>Slice\<close> and \<^verbatim>\<open>Array\<close> alike, the sub-view operation
  compiles if and only if \<open>0 \<le> Start \<le> End \<le> L\<close>. The code at \<^verbatim>\<open>Start = End = L = 4\<close>:
  \<^verbatim>\<open>CSlice<T, 4>::cslice<4, 4>()\<close> passes \<^verbatim>\<open>SLICE_METH_ASSERTS\<close>, which asserts
  \<^verbatim>\<open>Start <= L\<close>, and is then rejected by the assertion \<^verbatim>\<open>Offset < L\<close> of
  \<^verbatim>\<open>cdata<Start>()\<close>, while \<^verbatim>\<open>Array<T, 4>::cslice<4, 4>()\<close> compiles and returns the
  empty view at the end of the array. Likewise \<^verbatim>\<open>Slice<T, 0>::slice<0, 0>()\<close> is rejected
  by the assertion of \<^verbatim>\<open>data<0>()\<close>.
\<close>

theorem cslice_at_end_rejected:
  "CSlice_cslice 4 4 \<lparr>slice_data = 100, slice_L = 4\<rparr> = Inl (StaticAssert ''Bad offset'') \<and>
   Array_cslice 4 4 \<lparr>array_data = 100, array_L = 4\<rparr> = Inr \<lparr>slice_data = 104, slice_L = 0\<rparr> \<and>
   Slice_slice 0 0 \<lparr>slice_data = 100, slice_L = 0\<rparr> = Inl (StaticAssert ''Bad offset'')"
  by (simp add: CSlice_cslice_eq Array_cslice_eq Array_slice_eq Slice_slice_eq)

section \<open>Offset pointers\<close>

text \<open>
  C8. \<^verbatim>\<open>cdata<Offset>()\<close> and \<^verbatim>\<open>data<Offset>()\<close>, on a slice and on an array, compile
  if and only if \<open>Offset < L\<close>, and then return the base pointer advanced by \<open>Offset\<close>
  elements.
\<close>

theorem offset_pointer_checked:
  "(compiles (CSlice_cdata Offset s) \<longleftrightarrow> Offset < slice_L s) \<and>
   (compiles (Slice_data Offset s) \<longleftrightarrow> Offset < slice_L s) \<and>
   (compiles (Array_cdata Offset a) \<longleftrightarrow> Offset < array_L a) \<and>
   (compiles (Array_data Offset a) \<longleftrightarrow> Offset < array_L a) \<and>
   (Offset < slice_L s \<longrightarrow>
      CSlice_cdata Offset s = Inr (slice_data s + Offset) \<and>
      Slice_data Offset s = Inr (slice_data s + Offset)) \<and>
   (Offset < array_L a \<longrightarrow>
      Array_cdata Offset a = Inr (array_data a + Offset) \<and>
      Array_data Offset a = Inr (array_data a + Offset))"
  by (simp add: Slice_data_def Array_data_def CSlice_cdata_eq Array_cdata_eq)

theorem offset_pointer_checked_witness:
  "CSlice_cdata 3 \<lparr>slice_data = 100, slice_L = 4\<rparr> = Inr 103 \<and>
   Slice_data 3 \<lparr>slice_data = 100, slice_L = 4\<rparr> = Inr 103 \<and>
   Array_cdata 3 \<lparr>array_data = 100, array_L = 4\<rparr> = Inr 103 \<and>
   Array_data 3 \<lparr>array_data = 100, array_L = 4\<rparr> = Inr 103 \<and>
   \<not> compiles (CSlice_cdata 4 \<lparr>slice_data = 100, slice_L = 4\<rparr>) \<and>
   \<not> compiles (Array_data 4 \<lparr>array_data = 100, array_L = 4\<rparr>)"
  using
    offset_pointer_checked [of 3 "\<lparr>slice_data = 100, slice_L = 4\<rparr>" "\<lparr>array_data = 100, array_L = 4\<rparr>"]
    offset_pointer_checked [of 4 "\<lparr>slice_data = 100, slice_L = 4\<rparr>" "\<lparr>array_data = 100, array_L = 4\<rparr>"]
  by simp

section \<open>Erasure to a CArrayPtr\<close>

text \<open>
  C10. \<^verbatim>\<open>operator&\<close> of a slice or of an array yields a \<^verbatim>\<open>CArrayPtr\<close> whose \<^verbatim>\<open>size()\<close>
  is \<open>L\<close> and whose \<^verbatim>\<open>data()\<close> is the base pointer, so that element \<open>i\<close> behind the
  pointer is element \<open>i\<close> of the view. The operator takes no memory and returns none:
  it reads and writes no element. The statement holds for a null slice as well.
\<close>

theorem erase_to_CArrayPtr:
  "CArrayPtr_size (CSlice_addr s) = CSlice_size s \<and>
   CSlice_size s = slice_L s \<and>
   CArrayPtr_data (CSlice_addr s) = slice_data s \<and>
   CArrayPtr_size (Array_addr a) = Array_size a \<and>
   Array_size a = array_L a \<and>
   CArrayPtr_data (Array_addr a) = array_data a \<and>
   (\<forall>i. CArrayPtr_data (CSlice_addr s) + i = CSlice_index s i) \<and>
   (\<forall>i. CArrayPtr_data (Array_addr a) + i = Array_index a i)"
  by (simp add: CArrayPtr_size_def CArrayPtr_data_def CSlice_addr_def Array_addr_def
      CArrayPtr_ctor_def CSlice_size_def Array_size_def CSlice_index_def Array_index_def)

theorem erase_to_CArrayPtr_witness:
  "CArrayPtr_size (CSlice_addr \<lparr>slice_data = 100, slice_L = 4\<rparr>) = 4 \<and>
   CArrayPtr_data (CSlice_addr \<lparr>slice_data = 100, slice_L = 4\<rparr>) = 100 \<and>
   CArrayPtr_size (Array_addr \<lparr>array_data = 200, array_L = 8\<rparr>) = 8 \<and>
   CArrayPtr_data (Array_addr \<lparr>array_data = 200, array_L = 8\<rparr>) = 200"
  using erase_to_CArrayPtr [of "\<lparr>slice_data = 100, slice_L = 4\<rparr>" "\<lparr>array_data = 200, array_L = 8\<rparr>"]
  by simp

section \<open>cast\<close>

lemma cast_eq:
  "cast szT a =
     (if szT \<le> array_L a
      then if 0 < array_L a then Inr (array_data a) else Inl (StaticAssert ''Bad offset'')
      else Inl (StaticAssert ''Unsafe cast''))"
  by (simp add: cast_def sizeof_Array_def Array_cdata_eq)

text \<open>
  C5, as the claim states it, fails for a target type of size 0 on a \<^verbatim>\<open>ByteArray<0>\<close>
  (both exist in GNU C++, the dialect of the header): \<open>sizeof(T) \<le> L\<close> holds, the
  assertion of \<^verbatim>\<open>cast\<close> passes, and the call is rejected by the assertion \<^verbatim>\<open>0 < L\<close> of
  the \<^verbatim>\<open>array.cdata()\<close> that \<^verbatim>\<open>cast\<close> returns.
\<close>

theorem cast_zero_size_counterexample:
  "cast 0 \<lparr>array_data = 100, array_L = 0\<rparr> = Inl (StaticAssert ''Bad offset'')"
  by (simp add: cast_eq)

text \<open>
  C5, amended. For a target type of size \<open>szT\<close>, \<^verbatim>\<open>cast<T>\<close> of a \<^verbatim>\<open>ByteArray<L>\<close>
  compiles if and only if \<open>szT \<le> L\<close> and \<open>0 < L\<close>, in both overloads, and then returns
  the base pointer of the array: byte \<open>i\<close> behind the returned pointer is byte \<open>i\<close> of
  the array. \<^verbatim>\<open>cast\<close> takes no memory and returns none: it moves and changes no byte.
  For a type of size at least 1 the condition is \<open>szT \<le> L\<close>.
\<close>

theorem cast_checked_zero_copy:
  "(compiles (cast szT a) \<longleftrightarrow> szT \<le> array_L a \<and> 0 < array_L a) \<and>
   (compiles (cast_mut szT a) \<longleftrightarrow> szT \<le> array_L a \<and> 0 < array_L a) \<and>
   (szT \<le> array_L a \<and> 0 < array_L a \<longrightarrow>
      cast szT a = Inr (array_data a) \<and> cast_mut szT a = Inr (array_data a) \<and>
      (\<forall>i. array_data a + i = Array_index a i))"
  by (simp add: cast_mut_def cast_eq Array_index_def)

theorem cast_checked_zero_copy_witness:
  "cast 37 \<lparr>array_data = 100, array_L = 37\<rparr> = Inr 100 \<and>
   cast_mut 37 \<lparr>array_data = 100, array_L = 37\<rparr> = Inr 100 \<and>
   \<not> compiles (cast 38 \<lparr>array_data = 100, array_L = 37\<rparr>) \<and>
   \<not> compiles (cast_mut 38 \<lparr>array_data = 100, array_L = 37\<rparr>) \<and>
   \<not> compiles (cast 0 \<lparr>array_data = 100, array_L = 0\<rparr>) \<and>
   \<not> compiles (cast_mut 0 \<lparr>array_data = 100, array_L = 0\<rparr>)"
  using cast_checked_zero_copy [of 37 "\<lparr>array_data = 100, array_L = 37\<rparr>"]
    cast_checked_zero_copy [of 38 "\<lparr>array_data = 100, array_L = 37\<rparr>"]
    cast_checked_zero_copy [of 0 "\<lparr>array_data = 100, array_L = 0\<rparr>"]
  by simp

section \<open>fill\<close>

lemma fill_loop_ok:
  "i \<le> slice_L this \<Longrightarrow> 0 < slice_L this \<Longrightarrow> allocated m (slice_data this) (slice_L this) \<Longrightarrow>
   fill_loop this val i m =
     Inr (\<lambda>a. if slice_data this + i \<le> a \<and> a < slice_data this + slice_L this
               then Some val else m a)"
proof (induction this val i m rule: fill_loop.induct)
  case (1 this val i m)
  show ?case
  proof (cases "i < slice_L this")
    case False
    with "1.prems" have "i = slice_L this" by simp
    then show ?thesis by (subst fill_loop.simps) (auto simp add: fun_eq_iff)
  next
    case True
    from "1.prems" True have live: "m (slice_data this + i) \<noteq> None"
      by (simp add: allocated_def)
    have st: "store m (slice_data this + i) val = Inr (m(slice_data this + i \<mapsto> val))"
      using live by (simp add: store_def)
    have al: "allocated (m(slice_data this + i \<mapsto> val)) (slice_data this) (slice_L this)"
      using "1.prems" by (simp add: allocated_def)
    have idx: "Slice_index this i = Inr (slice_data this + i)"
      using "1.prems" by (simp add: Slice_index_eq)
    have ih: "fill_loop this val (Suc i) (m(slice_data this + i \<mapsto> val)) =
      Inr (\<lambda>a. if slice_data this + Suc i \<le> a \<and> a < slice_data this + slice_L this
                then Some val else (m(slice_data this + i \<mapsto> val)) a)"
    proof (rule "1.IH" [OF True idx st])
      show "Suc i \<le> slice_L this" using True by simp
      show "0 < slice_L this" by (rule "1.prems"(2))
      show "allocated (m(slice_data this + i \<mapsto> val)) (slice_data this) (slice_L this)"
        by (rule al)
    qed
    show ?thesis
      using True st
      by (subst fill_loop.simps) (auto simp add: idx ih fun_eq_iff)
  qed
qed

lemma Slice_fill_ok:
  assumes "0 < L" "allocated m d L"
  shows "Slice_fill \<lparr>slice_data = d, slice_L = L\<rparr> val m =
           Inr (\<lambda>a. if d \<le> a \<and> a < d + L then Some val else m a)"
  using assms fill_loop_ok [of 0 "\<lparr>slice_data = d, slice_L = L\<rparr>" m val]
  by (simp add: Slice_fill_def Slice_index_eq)

lemma Array_fill_ok:
  assumes "0 < L" "allocated m d L"
  shows "Array_fill \<lparr>array_data = d, array_L = L\<rparr> val m =
           Inr (\<lambda>a. if d \<le> a \<and> a < d + L then Some val else m a)"
  by (simp add: Array_fill_def Array_slice_eq Slice_fill_ok [OF assms])

lemma compiles_fill_loop: "0 < slice_L this \<Longrightarrow> compiles (fill_loop this val i m)"
proof (induction this val i m rule: fill_loop.induct)
  case (1 this val i m)
  have idx: "Slice_index this i = Inr (slice_data this + i)"
    using "1.prems" by (simp add: Slice_index_eq)
  show ?case
  proof (cases "i < slice_L this")
    case False
    then show ?thesis by (subst fill_loop.simps) simp
  next
    case True
    show ?thesis
    proof (cases "store m (slice_data this + i) val")
      case (Inl e)
      with compiles_store [of m "slice_data this + i" val] True show ?thesis
        by (subst fill_loop.simps) (simp add: idx)
    next
      case (Inr m')
      with "1.IH" [OF True idx Inr "1.prems"] True show ?thesis
        by (subst fill_loop.simps) (simp add: idx)
    qed
  qed
qed

lemma Slice_fill_compiles: "compiles (Slice_fill this val m) \<longleftrightarrow> 0 < slice_L this"
  by (auto simp add: Slice_fill_def Slice_index_eq compiles_fill_loop)

lemma Array_fill_compiles: "compiles (Array_fill this val m) \<longleftrightarrow> 0 < array_L this"
  by (simp add: Array_fill_def Array_slice_eq Slice_fill_compiles)

text \<open>
  C9, as the claim states it, fails for a view of length 0: \<^verbatim>\<open>fill\<close> is then rejected
  at compile time, by the assertion \<^verbatim>\<open>0 < L\<close> of the \<^verbatim>\<open>data<0>()\<close> that
  \<^verbatim>\<open>operator[]\<close> calls.
\<close>

theorem fill_empty_counterexample:
  "Slice_fill \<lparr>slice_data = 100, slice_L = 0\<rparr> 7 (heap_of 100 [1, 2, 3 :: 8 word]) =
     Inl (StaticAssert ''Bad offset'')"
  by (simp add: Slice_fill_def Slice_index_eq)

text \<open>
  C9, amended. For every slice and every array of length \<open>L\<close>, every value \<open>v\<close> and
  every memory, \<^verbatim>\<open>fill(v)\<close> compiles if and only if \<open>L > 0\<close>. For \<open>L > 0\<close> over \<open>L\<close>
  live elements \<^verbatim>\<open>fill(v)\<close> returns, and afterwards every index from 0 to \<open>L - 1\<close>
  holds \<open>v\<close>.
\<close>

theorem fill_sets_every_element:
  "(compiles (Slice_fill \<lparr>slice_data = d, slice_L = L\<rparr> v m) \<longleftrightarrow> 0 < L) \<and>
   (compiles (Array_fill \<lparr>array_data = d, array_L = L\<rparr> v m) \<longleftrightarrow> 0 < L) \<and>
   (0 < L \<and> allocated m d L \<longrightarrow>
      (\<exists>m'. Slice_fill \<lparr>slice_data = d, slice_L = L\<rparr> v m = Inr m'
          \<and> Array_fill \<lparr>array_data = d, array_L = L\<rparr> v m = Inr m'
          \<and> (\<forall>i<L. load m' (d + i) = Inr v)))"
proof (intro conjI impI)
  show "compiles (Slice_fill \<lparr>slice_data = d, slice_L = L\<rparr> v m) \<longleftrightarrow> 0 < L"
    by (simp add: Slice_fill_compiles)
  show "compiles (Array_fill \<lparr>array_data = d, array_L = L\<rparr> v m) \<longleftrightarrow> 0 < L"
    by (simp add: Array_fill_compiles)
  assume "0 < L \<and> allocated m d L"
  then have h: "0 < L" "allocated m d L" by simp_all
  show "\<exists>m'. Slice_fill \<lparr>slice_data = d, slice_L = L\<rparr> v m = Inr m'
          \<and> Array_fill \<lparr>array_data = d, array_L = L\<rparr> v m = Inr m'
          \<and> (\<forall>i<L. load m' (d + i) = Inr v)"
    using Slice_fill_ok [OF h] Array_fill_ok [OF h] by (simp add: load_def)
qed

theorem fill_sets_every_element_witness:
  "(\<exists>m'. Slice_fill \<lparr>slice_data = 100, slice_L = 3\<rparr> 7 (heap_of 100 [1, 2, 3 :: 8 word]) = Inr m'
       \<and> Array_fill \<lparr>array_data = 100, array_L = 3\<rparr> 7 (heap_of 100 [1, 2, 3 :: 8 word]) = Inr m'
       \<and> map (load m') [100, 101, 102] = [Inr 7, Inr 7, Inr 7])
   \<and> \<not> compiles (Slice_fill \<lparr>slice_data = 100, slice_L = 0\<rparr> 7 (heap_of 100 [1, 2, 3 :: 8 word]))
   \<and> \<not> compiles (Array_fill \<lparr>array_data = 100, array_L = 0\<rparr> 7 (heap_of 100 [1, 2, 3 :: 8 word]))"
proof -
  let ?m = "heap_of 100 [1, 2, 3 :: 8 word]"
  have a: "allocated ?m 100 3"
    by (simp add: allocated_def heap_of_def)
  obtain m' where
    s: "Slice_fill \<lparr>slice_data = 100, slice_L = 3\<rparr> 7 ?m = Inr m'"
    and b: "Array_fill \<lparr>array_data = 100, array_L = 3\<rparr> 7 ?m = Inr m'"
    and e: "\<forall>i<3. load m' (100 + i) = Inr 7"
    using fill_sets_every_element [where d = 100 and L = 3 and v = 7 and m = ?m] a by auto
  have r: "map (load m') [100, 101, 102] = [Inr 7, Inr 7, Inr 7]"
    using e [rule_format, of 0] e [rule_format, of 1] e [rule_format, of 2] by simp
  have p: "\<exists>m'. Slice_fill \<lparr>slice_data = 100, slice_L = 3\<rparr> 7 ?m = Inr m'
       \<and> Array_fill \<lparr>array_data = 100, array_L = 3\<rparr> 7 ?m = Inr m'
       \<and> map (load m') [100, 101, 102] = [Inr 7, Inr 7, Inr 7]"
    by (rule exI [of _ m']) (intro conjI s b r)
  have n: "\<not> compiles (Slice_fill \<lparr>slice_data = 100, slice_L = 0\<rparr> 7 ?m)"
    "\<not> compiles (Array_fill \<lparr>array_data = 100, array_L = 0\<rparr> 7 ?m)"
    using fill_sets_every_element [where d = 100 and L = 0 and v = 7 and m = ?m] by simp_all
  show ?thesis by (intro conjI p n)
qed

section \<open>assign\<close>

lemma copy_elems_inside: "i < n \<Longrightarrow> copy_elems m d c n (d + i) = m (c + i)"
  by (simp add: copy_elems_def)

lemma copy_elems_outside: "a < d \<or> d + n \<le> a \<Longrightarrow> copy_elems m d c n a = m a"
  by (auto simp add: copy_elems_def)

lemma memcpy_ok:
  assumes "0 < szT" "allocated m d n" "allocated m c n" "d + n \<le> c \<or> c + n \<le> d"
  shows "memcpy szT d c (n * szT) m = Inr (copy_elems m d c n)"
  using assms by (simp add: memcpy_def)

lemma Slice_assign_ok:
  assumes "0 < szT" "0 < L2" "L2 \<le> L" "allocated m d L" "allocated m c L2"
    "d + L2 \<le> c \<or> c + L2 \<le> d"
  shows "Slice_assign szT \<lparr>slice_data = d, slice_L = L\<rparr> \<lparr>slice_data = c, slice_L = L2\<rparr> m =
           Inr (copy_elems m d c L2)"
proof -
  have "allocated m d L2"
    using assms(4,3) by (rule allocated_mono)
  then show ?thesis
    using assms
    by (simp add: Slice_assign_def Slice_data_def CSlice_cdata_eq CSlice_sizeBytes_def memcpy_ok)
qed

lemma Array_assign_ok:
  assumes "0 < szT" "0 < L2" "L2 \<le> L" "allocated m d L" "allocated m c L2"
    "d + L2 \<le> c \<or> c + L2 \<le> d"
  shows "Array_assign szT \<lparr>array_data = d, array_L = L\<rparr> \<lparr>slice_data = c, slice_L = L2\<rparr> m =
           Inr (copy_elems m d c L2)"
  using assms by (simp add: Array_assign_def Array_slice_eq Slice_assign_ok)

lemma Slice_assign_compiles:
  "compiles (Slice_assign szT this data m) \<longleftrightarrow>
     0 < slice_L data \<and> slice_L data \<le> slice_L this"
  by (auto simp add: Slice_assign_def Slice_data_def CSlice_cdata_eq compiles_memcpy
      static_assert_def)

lemma Array_assign_compiles:
  "compiles (Array_assign szT this data m) \<longleftrightarrow>
     0 < slice_L data \<and> slice_L data \<le> array_L this"
  by (auto simp add: Array_assign_def Array_slice_eq Slice_assign_compiles static_assert_def)

text \<open>
  C1, as the claim states it, fails for a source of length 0, which is a length
  \<open>L2 \<le> L\<close>: the call is rejected at compile time, by the assertion \<^verbatim>\<open>0 < L2\<close> of the
  \<^verbatim>\<open>data.cdata()\<close> that \<^verbatim>\<open>assign\<close> passes to \<^verbatim>\<open>memcpy\<close>.
\<close>

theorem assign_empty_source_counterexample:
  "Slice_assign 1 \<lparr>slice_data = 100, slice_L = 4\<rparr> \<lparr>slice_data = 200, slice_L = 0\<rparr>
     (heap_of 100 [0, 0, 0, 0 :: 8 word]) = Inl (StaticAssert ''Bad offset'')"
  by (simp add: Slice_assign_def Slice_data_def CSlice_cdata_eq)

text \<open>
  C1, amended. For every destination slice and every destination array of length \<open>L\<close>
  and every source of length \<open>L2\<close>, whatever the element size and the memory,
  \<^verbatim>\<open>assign\<close> compiles if and only if \<open>0 < L2 \<le> L\<close>. For \<open>0 < L2 \<le> L\<close> and an element
  type of size at least 1, with destination and source over live elements and the
  source not overlapping the part of the destination that is written (what \<^verbatim>\<open>memcpy\<close>
  requires), \<^verbatim>\<open>assign\<close> returns; afterwards the destination holds the source's \<open>L2\<close>
  elements at the indices from 0 to \<open>L2 - 1\<close>, and every destination element at an
  index from \<open>L2\<close> on is as it was.
\<close>

theorem assign_copies_prefix:
  "(compiles (Slice_assign szT \<lparr>slice_data = d, slice_L = L\<rparr> \<lparr>slice_data = c, slice_L = L2\<rparr> m)
      \<longleftrightarrow> 0 < L2 \<and> L2 \<le> L) \<and>
   (compiles (Array_assign szT \<lparr>array_data = d, array_L = L\<rparr> \<lparr>slice_data = c, slice_L = L2\<rparr> m)
      \<longleftrightarrow> 0 < L2 \<and> L2 \<le> L) \<and>
   (0 < szT \<and> 0 < L2 \<and> L2 \<le> L \<and> allocated m d L \<and> allocated m c L2 \<and>
    (d + L2 \<le> c \<or> c + L2 \<le> d) \<longrightarrow>
      (\<exists>m'. Slice_assign szT \<lparr>slice_data = d, slice_L = L\<rparr> \<lparr>slice_data = c, slice_L = L2\<rparr> m = Inr m'
          \<and> Array_assign szT \<lparr>array_data = d, array_L = L\<rparr> \<lparr>slice_data = c, slice_L = L2\<rparr> m = Inr m'
          \<and> (\<forall>i<L2. m' (d + i) = m (c + i))
          \<and> (\<forall>i\<ge>L2. m' (d + i) = m (d + i))))"
proof (intro conjI impI)
  show "compiles (Slice_assign szT \<lparr>slice_data = d, slice_L = L\<rparr> \<lparr>slice_data = c, slice_L = L2\<rparr> m)
      \<longleftrightarrow> 0 < L2 \<and> L2 \<le> L"
    by (simp add: Slice_assign_compiles)
  show "compiles (Array_assign szT \<lparr>array_data = d, array_L = L\<rparr> \<lparr>slice_data = c, slice_L = L2\<rparr> m)
      \<longleftrightarrow> 0 < L2 \<and> L2 \<le> L"
    by (simp add: Array_assign_compiles)
  assume "0 < szT \<and> 0 < L2 \<and> L2 \<le> L \<and> allocated m d L \<and> allocated m c L2 \<and>
    (d + L2 \<le> c \<or> c + L2 \<le> d)"
  then have h: "0 < szT" "0 < L2" "L2 \<le> L" "allocated m d L" "allocated m c L2"
    "d + L2 \<le> c \<or> c + L2 \<le> d"
    by simp_all
  show "\<exists>m'. Slice_assign szT \<lparr>slice_data = d, slice_L = L\<rparr> \<lparr>slice_data = c, slice_L = L2\<rparr> m = Inr m'
          \<and> Array_assign szT \<lparr>array_data = d, array_L = L\<rparr> \<lparr>slice_data = c, slice_L = L2\<rparr> m = Inr m'
          \<and> (\<forall>i<L2. m' (d + i) = m (c + i))
          \<and> (\<forall>i\<ge>L2. m' (d + i) = m (d + i))"
    using Slice_assign_ok [OF h] Array_assign_ok [OF h]
    by (simp add: copy_elems_inside copy_elems_outside)
qed

theorem assign_copies_prefix_witness:
  "(\<exists>m'. Slice_assign 1 \<lparr>slice_data = 100, slice_L = 4\<rparr> \<lparr>slice_data = 200, slice_L = 2\<rparr>
            (heap_of 100 [0, 0, 0, 0 :: 8 word] ++ heap_of 200 [9, 9]) = Inr m'
       \<and> Array_assign 1 \<lparr>array_data = 100, array_L = 4\<rparr> \<lparr>slice_data = 200, slice_L = 2\<rparr>
            (heap_of 100 [0, 0, 0, 0 :: 8 word] ++ heap_of 200 [9, 9]) = Inr m'
       \<and> map m' [100, 101, 102, 103] = [Some 9, Some 9, Some 0, Some 0])
   \<and> \<not> compiles (Slice_assign 1 \<lparr>slice_data = 100, slice_L = 4\<rparr> \<lparr>slice_data = 200, slice_L = 0\<rparr>
            (heap_of 100 [0, 0, 0, 0 :: 8 word] ++ heap_of 200 [9, 9]))
   \<and> \<not> compiles (Array_assign 1 \<lparr>array_data = 100, array_L = 4\<rparr> \<lparr>slice_data = 200, slice_L = 0\<rparr>
            (heap_of 100 [0, 0, 0, 0 :: 8 word] ++ heap_of 200 [9, 9]))"
proof -
  let ?m = "heap_of 100 [0, 0, 0, 0 :: 8 word] ++ heap_of 200 [9, 9]"
  have a1: "allocated ?m 100 4" and a2: "allocated ?m 200 2"
    by (simp_all add: allocated_def heap_of_def map_add_def)
  obtain m' where
    s: "Slice_assign 1 \<lparr>slice_data = 100, slice_L = 4\<rparr> \<lparr>slice_data = 200, slice_L = 2\<rparr> ?m = Inr m'"
    and a: "Array_assign 1 \<lparr>array_data = 100, array_L = 4\<rparr> \<lparr>slice_data = 200, slice_L = 2\<rparr> ?m = Inr m'"
    and lo: "\<forall>i<2. m' (100 + i) = ?m (200 + i)"
    and hi: "\<forall>i\<ge>2. m' (100 + i) = ?m (100 + i)"
    using assign_copies_prefix [where szT = 1 and d = 100 and L = 4 and c = 200 and ?L2.0 = 2 and m = ?m]
      a1 a2
    by auto
  have "m' 100 = ?m 200" "m' 101 = ?m 201" "m' 102 = ?m 102" "m' 103 = ?m 103"
    using lo [rule_format, of 0] lo [rule_format, of 1] hi [rule_format, of 2] hi [rule_format, of 3]
    by simp_all
  then have r: "map m' [100, 101, 102, 103] = [Some 9, Some 9, Some 0, Some 0]"
    by (simp add: heap_of_def map_add_def)
  have p: "\<exists>m'. Slice_assign 1 \<lparr>slice_data = 100, slice_L = 4\<rparr> \<lparr>slice_data = 200, slice_L = 2\<rparr> ?m = Inr m'
       \<and> Array_assign 1 \<lparr>array_data = 100, array_L = 4\<rparr> \<lparr>slice_data = 200, slice_L = 2\<rparr> ?m = Inr m'
       \<and> map m' [100, 101, 102, 103] = [Some 9, Some 9, Some 0, Some 0]"
    by (rule exI [of _ m']) (intro conjI s a r)
  have n: "\<not> compiles (Slice_assign 1 \<lparr>slice_data = 100, slice_L = 4\<rparr> \<lparr>slice_data = 200, slice_L = 0\<rparr> ?m)"
    "\<not> compiles (Array_assign 1 \<lparr>array_data = 100, array_L = 4\<rparr> \<lparr>slice_data = 200, slice_L = 0\<rparr> ?m)"
    using assign_copies_prefix [where szT = 1 and d = 100 and L = 4 and c = 200 and ?L2.0 = 0 and m = ?m]
    by simp_all
  show ?thesis by (intro conjI p n)
qed

section \<open>The cursor-write operator\<close>

lemma shl_Slice_ok:
  assumes "0 < szT" "0 < L2" "L2 \<le> L1" "allocated m d L1" "allocated m c L2"
    "d + L2 \<le> c \<or> c + L2 \<le> d"
  shows "shl_Slice szT \<lparr>slice_data = d, slice_L = L1\<rparr> \<lparr>slice_data = c, slice_L = L2\<rparr> m =
           Inr (\<lparr>slice_data = d + L2, slice_L = L1 - L2\<rparr>, copy_elems m d c L2)"
  using assms(2,3) by (simp add: shl_Slice_def Slice_assign_ok [OF assms] Slice_slice_eq)

lemma shl_Array_ok:
  assumes "0 < szT" "0 < L2" "L2 \<le> L1" "allocated m d L1" "allocated m c L2"
    "d + L2 \<le> c \<or> c + L2 \<le> d"
  shows "shl_Array szT \<lparr>array_data = d, array_L = L1\<rparr> \<lparr>slice_data = c, slice_L = L2\<rparr> m =
           Inr (\<lparr>slice_data = d + L2, slice_L = L1 - L2\<rparr>, copy_elems m d c L2)"
  by (simp add: shl_Array_def Array_slice_eq shl_Slice_ok [OF assms])

lemma shl_Slice_compiles:
  "compiles (shl_Slice szT dest data m) \<longleftrightarrow>
     0 < slice_L data \<and> slice_L data \<le> slice_L dest"
proof (cases "Slice_assign szT dest data m")
  case (Inl e)
  with Slice_assign_compiles [of szT dest data m] show ?thesis
    by (cases e) (simp_all add: shl_Slice_def)
next
  case (Inr m')
  with Slice_assign_compiles [of szT dest data m] show ?thesis
    by (simp add: shl_Slice_def Slice_slice_eq)
qed

lemma shl_Array_compiles:
  "compiles (shl_Array szT dest data m) \<longleftrightarrow>
     0 < slice_L data \<and> slice_L data \<le> array_L dest"
  by (simp add: shl_Array_def Array_slice_eq shl_Slice_compiles)

text \<open>
  C3, as the claim states it, fails for a source of length 0, for the same reason as
  \<^verbatim>\<open>assign\<close>, which the operator calls first.
\<close>

theorem shl_empty_source_counterexample:
  "shl_Slice 1 \<lparr>slice_data = 100, slice_L = 4\<rparr> \<lparr>slice_data = 200, slice_L = 0\<rparr>
     (heap_of 100 [0, 0, 0, 0 :: 8 word]) = Inl (StaticAssert ''Bad offset'')"
  by (simp add: shl_Slice_def Slice_assign_def Slice_data_def CSlice_cdata_eq)

text \<open>
  C3, amended. For every destination slice and every destination array of length
  \<open>L1\<close> and every source of length \<open>L2\<close>, whatever the element size and the memory,
  \<^verbatim>\<open>operator<<\<close> compiles if and only if \<open>0 < L2 \<le> L1\<close>. For \<open>0 < L2 \<le> L1\<close> and an
  element type of size at least 1, with destination and source over live elements and
  the source not overlapping the part that is written, \<^verbatim>\<open>operator<<\<close> returns: the
  source is copied into the first \<open>L2\<close> elements of the destination, and the result is
  a slice of length \<open>L1 - L2\<close> whose data pointer is the destination's advanced by
  \<open>L2\<close>, so that its elements are the destination's elements from index \<open>L2\<close> on, as
  they were before the call.
\<close>

theorem shl_returns_unwritten_suffix:
  "(compiles (shl_Slice szT \<lparr>slice_data = d, slice_L = L1\<rparr> \<lparr>slice_data = c, slice_L = L2\<rparr> m)
      \<longleftrightarrow> 0 < L2 \<and> L2 \<le> L1) \<and>
   (compiles (shl_Array szT \<lparr>array_data = d, array_L = L1\<rparr> \<lparr>slice_data = c, slice_L = L2\<rparr> m)
      \<longleftrightarrow> 0 < L2 \<and> L2 \<le> L1) \<and>
   (0 < szT \<and> 0 < L2 \<and> L2 \<le> L1 \<and> allocated m d L1 \<and> allocated m c L2 \<and>
    (d + L2 \<le> c \<or> c + L2 \<le> d) \<longrightarrow>
      (\<exists>r m'. shl_Slice szT \<lparr>slice_data = d, slice_L = L1\<rparr> \<lparr>slice_data = c, slice_L = L2\<rparr> m = Inr (r, m')
          \<and> shl_Array szT \<lparr>array_data = d, array_L = L1\<rparr> \<lparr>slice_data = c, slice_L = L2\<rparr> m = Inr (r, m')
          \<and> CSlice_size r = L1 - L2
          \<and> slice_data r = d + L2
          \<and> (\<forall>i<L2. m' (d + i) = m (c + i))
          \<and> (\<forall>i<L1 - L2. m' (CSlice_index r i) = m (d + L2 + i))))"
proof (intro conjI impI)
  show "compiles (shl_Slice szT \<lparr>slice_data = d, slice_L = L1\<rparr> \<lparr>slice_data = c, slice_L = L2\<rparr> m)
      \<longleftrightarrow> 0 < L2 \<and> L2 \<le> L1"
    by (simp add: shl_Slice_compiles)
  show "compiles (shl_Array szT \<lparr>array_data = d, array_L = L1\<rparr> \<lparr>slice_data = c, slice_L = L2\<rparr> m)
      \<longleftrightarrow> 0 < L2 \<and> L2 \<le> L1"
    by (simp add: shl_Array_compiles)
  assume "0 < szT \<and> 0 < L2 \<and> L2 \<le> L1 \<and> allocated m d L1 \<and> allocated m c L2 \<and>
    (d + L2 \<le> c \<or> c + L2 \<le> d)"
  then have h: "0 < szT" "0 < L2" "L2 \<le> L1" "allocated m d L1" "allocated m c L2"
    "d + L2 \<le> c \<or> c + L2 \<le> d"
    by simp_all
  show "\<exists>r m'. shl_Slice szT \<lparr>slice_data = d, slice_L = L1\<rparr> \<lparr>slice_data = c, slice_L = L2\<rparr> m = Inr (r, m')
          \<and> shl_Array szT \<lparr>array_data = d, array_L = L1\<rparr> \<lparr>slice_data = c, slice_L = L2\<rparr> m = Inr (r, m')
          \<and> CSlice_size r = L1 - L2
          \<and> slice_data r = d + L2
          \<and> (\<forall>i<L2. m' (d + i) = m (c + i))
          \<and> (\<forall>i<L1 - L2. m' (CSlice_index r i) = m (d + L2 + i))"
    using shl_Slice_ok [OF h] shl_Array_ok [OF h]
    by (simp add: CSlice_size_def CSlice_index_def copy_elems_inside copy_elems_outside)
qed

theorem shl_returns_unwritten_suffix_witness:
  "(\<exists>m'. shl_Slice 1 \<lparr>slice_data = 100, slice_L = 10\<rparr> \<lparr>slice_data = 200, slice_L = 3\<rparr>
            (heap_of 100 [0, 1, 2, 3, 4, 5, 6, 7, 8, 9 :: 8 word] ++ heap_of 200 [20, 21, 22]) =
            Inr (\<lparr>slice_data = 103, slice_L = 7\<rparr>, m')
       \<and> shl_Array 1 \<lparr>array_data = 100, array_L = 10\<rparr> \<lparr>slice_data = 200, slice_L = 3\<rparr>
            (heap_of 100 [0, 1, 2, 3, 4, 5, 6, 7, 8, 9 :: 8 word] ++ heap_of 200 [20, 21, 22]) =
            Inr (\<lparr>slice_data = 103, slice_L = 7\<rparr>, m')
       \<and> map m' [100, 101, 102, 103] = [Some 20, Some 21, Some 22, Some 3])
   \<and> \<not> compiles (shl_Slice 1 \<lparr>slice_data = 100, slice_L = 10\<rparr> \<lparr>slice_data = 200, slice_L = 0\<rparr>
            (heap_of 100 [0, 1, 2, 3, 4, 5, 6, 7, 8, 9 :: 8 word] ++ heap_of 200 [20, 21, 22]))
   \<and> \<not> compiles (shl_Array 1 \<lparr>array_data = 100, array_L = 10\<rparr> \<lparr>slice_data = 200, slice_L = 0\<rparr>
            (heap_of 100 [0, 1, 2, 3, 4, 5, 6, 7, 8, 9 :: 8 word] ++ heap_of 200 [20, 21, 22]))"
proof -
  let ?m = "heap_of 100 [0, 1, 2, 3, 4, 5, 6, 7, 8, 9 :: 8 word] ++ heap_of 200 [20, 21, 22]"
  have a1: "allocated ?m 100 10" and a2: "allocated ?m 200 3"
    by (simp_all add: allocated_def heap_of_def map_add_def)
  obtain r m' where
    s: "shl_Slice 1 \<lparr>slice_data = 100, slice_L = 10\<rparr> \<lparr>slice_data = 200, slice_L = 3\<rparr> ?m = Inr (r, m')"
    and a: "shl_Array 1 \<lparr>array_data = 100, array_L = 10\<rparr> \<lparr>slice_data = 200, slice_L = 3\<rparr> ?m = Inr (r, m')"
    and sz: "CSlice_size r = 10 - 3"
    and dt: "slice_data r = 100 + 3"
    and lo: "\<forall>i<3. m' (100 + i) = ?m (200 + i)"
    and hi: "\<forall>i<10 - 3. m' (CSlice_index r i) = ?m (100 + 3 + i)"
    using shl_returns_unwritten_suffix
        [where szT = 1 and d = 100 and ?L1.0 = 10 and c = 200 and ?L2.0 = 3 and m = ?m]
      a1 a2
    by auto
  have r: "r = \<lparr>slice_data = 103, slice_L = 7\<rparr>"
    using sz dt by (simp add: CSlice_size_def)
  have "m' 100 = ?m 200" "m' 101 = ?m 201" "m' 102 = ?m 202" "m' 103 = ?m 103"
    using lo [rule_format, of 0] lo [rule_format, of 1] lo [rule_format, of 2] hi [rule_format, of 0]
    by (simp_all add: CSlice_index_def dt)
  then have e: "map m' [100, 101, 102, 103] = [Some 20, Some 21, Some 22, Some 3]"
    by (simp add: heap_of_def map_add_def)
  have p: "\<exists>m'. shl_Slice 1 \<lparr>slice_data = 100, slice_L = 10\<rparr> \<lparr>slice_data = 200, slice_L = 3\<rparr> ?m =
            Inr (\<lparr>slice_data = 103, slice_L = 7\<rparr>, m')
       \<and> shl_Array 1 \<lparr>array_data = 100, array_L = 10\<rparr> \<lparr>slice_data = 200, slice_L = 3\<rparr> ?m =
            Inr (\<lparr>slice_data = 103, slice_L = 7\<rparr>, m')
       \<and> map m' [100, 101, 102, 103] = [Some 20, Some 21, Some 22, Some 3]"
    by (rule exI [of _ m']) (intro conjI s [unfolded r] a [unfolded r] e)
  have n: "\<not> compiles (shl_Slice 1 \<lparr>slice_data = 100, slice_L = 10\<rparr> \<lparr>slice_data = 200, slice_L = 0\<rparr> ?m)"
    "\<not> compiles (shl_Array 1 \<lparr>array_data = 100, array_L = 10\<rparr> \<lparr>slice_data = 200, slice_L = 0\<rparr> ?m)"
    using shl_returns_unwritten_suffix
        [where szT = 1 and d = 100 and ?L1.0 = 10 and c = 200 and ?L2.0 = 0 and m = ?m]
    by simp_all
  show ?thesis by (intro conjI p n)
qed

section \<open>The scalar XOR operator\<close>

lemma xor_loop_ok:
  "allocated m (array_data array) (array_L array) \<Longrightarrow>
   xor_loop array v i m =
     Inr (\<lambda>a. if array_data array + i \<le> a \<and> a < array_data array + array_L array
               then map_option (\<lambda>x. x XOR ucast v) (m a) else m a)"
proof (induction array v i m rule: xor_loop.induct)
  case (1 array v i m)
  show ?case
  proof (cases "i < array_L array")
    case False
    then show ?thesis by (subst xor_loop.simps) (auto simp add: fun_eq_iff)
  next
    case True
    with "1.prems" obtain x where x: "m (array_data array + i) = Some x"
      by (force simp add: allocated_def)
    have ld: "load m (Array_index array i) = Inr x"
      using x by (simp add: load_def Array_index_def)
    have st: "store m (Array_index array i) (x XOR ucast v) =
                Inr (m(array_data array + i \<mapsto> x XOR ucast v))"
      using x by (simp add: store_def Array_index_def)
    have al: "allocated (m(array_data array + i \<mapsto> x XOR ucast v)) (array_data array) (array_L array)"
      using "1.prems" by (simp add: allocated_def)
    have ih: "xor_loop array v (Suc i) (m(array_data array + i \<mapsto> x XOR ucast v)) =
      Inr (\<lambda>a. if array_data array + Suc i \<le> a \<and> a < array_data array + array_L array
                then map_option (\<lambda>x. x XOR ucast v) ((m(array_data array + i \<mapsto> x XOR ucast v)) a)
                else (m(array_data array + i \<mapsto> x XOR ucast v)) a)"
      by (rule "1.IH" [OF True ld st al])
    show ?thesis
      using True x
      by (subst xor_loop.simps) (auto simp add: ld st ih fun_eq_iff)
  qed
qed

text \<open>
  Had the counter the same starting value in both calls, as it has when it is
  initialised to 0, the second call would undo the first.
\<close>

lemma xor_assign_twice_same_start:
  assumes "allocated m (array_data array) (array_L array)"
  shows "ebind (xor_assign i0 array v m) (xor_assign i0 array v) = Inr m"
proof -
  let ?m1 = "\<lambda>a. if array_data array + i0 \<le> a \<and> a < array_data array + array_L array
               then map_option (\<lambda>x. x XOR ucast v) (m a) else m a"
  have 1: "xor_assign i0 array v m = Inr ?m1"
    using assms by (simp add: xor_assign_def xor_loop_ok)
  have "allocated ?m1 (array_data array) (array_L array)"
    using assms by (auto simp add: allocated_def)
  then have 2: "xor_assign i0 array v ?m1 =
    Inr (\<lambda>a. if array_data array + i0 \<le> a \<and> a < array_data array + array_L array
               then map_option (\<lambda>x. x XOR ucast v) (?m1 a) else ?m1 a)"
    unfolding xor_assign_def by (rule xor_loop_ok)
  show ?thesis
    unfolding 1 ebind_simps 2
    by (auto simp add: fun_eq_iff option.map_comp comp_def xor_twice option.map_ident)
qed

text \<open>
  C4. The claim: applying \<^verbatim>\<open>operator^=\<close> with the same \<open>v\<close> twice leaves every element
  as it was. The loop of the operator starts at an uninitialised counter. On the array
  \<open>[1, 2]\<close> with \<open>v = 255\<close>, a first call whose counter starts at 0 and a second whose
  counter starts at 1 leave \<open>[254, 2]\<close>: element 0 has been changed once only.
\<close>

theorem xor_twice_uninitialised_counter:
  "ebind (xor_assign 0 \<lparr>array_data = 100, array_L = 2\<rparr> 255 (heap_of 100 [1, 2 :: 8 word])) (\<lambda>m1.
   ebind (xor_assign 1 \<lparr>array_data = 100, array_L = 2\<rparr> 255 m1) (\<lambda>m2.
   Inr (map m2 [100, 101]))) = Inr [Some 254, Some 2]"
proof -
  let ?A = "\<lparr>array_data = 100, array_L = 2\<rparr>"
  let ?m = "heap_of 100 [1, 2 :: 8 word]"
  have a: "allocated ?m (array_data ?A) (array_L ?A)"
    by (simp add: allocated_def heap_of_def)
  note 1 = xor_loop_ok [OF a, of 255 0]
  have "allocated (\<lambda>a. if array_data ?A + 0 \<le> a \<and> a < array_data ?A + array_L ?A
               then map_option (\<lambda>x. x XOR ucast (255 :: 8 word)) (?m a) else ?m a)
          (array_data ?A) (array_L ?A)"
    by (simp add: allocated_def heap_of_def)
  note 2 = xor_loop_ok [OF this, of 255 1]
  show ?thesis
    unfolding xor_assign_def 1 ebind_simps 2
    by (simp add: heap_of_def)
qed

section \<open>Reading back the parsing scenario\<close>

lemma load_n_eq:
  "load_n m p n = Inr xs \<longleftrightarrow> length xs = n \<and> (\<forall>i<n. m (p + i) = Some (xs ! i))"
proof (induction n arbitrary: p xs)
  case 0
  then show ?case by auto
next
  case (Suc n)
  show ?case
  proof (cases "m p")
    case None
    then show ?thesis by (auto simp add: load_def)
  next
    case (Some x)
    show ?thesis
    proof (cases "load_n m (Suc p) n")
      case (Inl e)
      then have "\<not> (\<exists>ys. load_n m (Suc p) n = Inr ys)" by simp
      then have no: "\<And>ys. \<not> (length ys = n \<and> (\<forall>i<n. m (Suc p + i) = Some (ys ! i)))"
        using Suc.IH [of "Suc p"] by blast
      have "\<not> (length xs = Suc n \<and> (\<forall>i<Suc n. m (p + i) = Some (xs ! i)))"
      proof
        assume h: "length xs = Suc n \<and> (\<forall>i<Suc n. m (p + i) = Some (xs ! i))"
        then obtain y ys where xs: "xs = y # ys" by (cases xs) auto
        with h have "length ys = n \<and> (\<forall>i<n. m (Suc p + i) = Some (ys ! i))"
          by (auto dest: spec [where x = "Suc _"])
        with no show False by blast
      qed
      with Inl Some show ?thesis by (simp add: load_def)
    next
      case (Inr ys)
      then have ys: "length ys = n" "\<forall>i<n. m (Suc p + i) = Some (ys ! i)"
        using Suc.IH [of "Suc p" ys] by auto
      show ?thesis
      proof
        assume "load_n m p (Suc n) = Inr xs"
        with Some Inr have xs: "xs = x # ys" by (simp add: load_def)
        show "length xs = Suc n \<and> (\<forall>i<Suc n. m (p + i) = Some (xs ! i))"
          using ys Some by (auto simp add: xs nth_Cons split: nat.splits)
      next
        assume h: "length xs = Suc n \<and> (\<forall>i<Suc n. m (p + i) = Some (xs ! i))"
        then obtain y zs where xs: "xs = y # zs" by (cases xs) auto
        from h xs Some have "y = x" by (auto dest: spec [where x = 0])
        moreover have "zs = ys"
        proof (rule nth_equalityI)
          show "length zs = length ys" using h xs ys by simp
          fix i assume "i < length zs"
          then have "i < n" using h xs by simp
          then have "m (p + Suc i) = Some (xs ! Suc i)" using h by auto
          then show "zs ! i = ys ! i" using ys(2) \<open>i < n\<close> xs by auto
        qed
        ultimately show "load_n m p (Suc n) = Inr xs"
          using Some Inr xs by (simp add: load_def)
      qed
    qed
  qed
qed


lemma allocated_copy_elems:
  assumes "allocated m c n" "allocated m p k"
  shows "allocated (copy_elems m d c n) p k"
  unfolding allocated_def
proof
  fix i assume i: "i \<in> {0..<k}"
  show "copy_elems m d c n (p + i) \<noteq> None"
  proof (cases "d \<le> p + i \<and> p + i < d + n")
    case True
    then have "p + i - d \<in> {0..<n}" by auto
    with assms(1) have "m (c + (p + i - d)) \<noteq> None"
      unfolding allocated_def by blast
    with True show ?thesis by (simp add: copy_elems_def)
  next
    case False
    with assms(2) i show ?thesis by (auto simp add: copy_elems_def allocated_def)
  qed
qed

lemma load_n_allocated: "load_n m p n = Inr xs \<Longrightarrow> allocated m p n"
  by (simp add: load_n_eq allocated_def)

lemma allocated_offset: "allocated m p n \<Longrightarrow> k \<le> n \<Longrightarrow> allocated m (p + k) (n - k)"
  by (auto simp add: allocated_def add.assoc)

text \<open>
  C6. A 37-byte array is laid out as a 1-byte tag, a 32-byte payload and a 4-byte id.
  The tag, 32 filler bytes and 4 id bytes are written by chained applications of
  \<^verbatim>\<open>operator<<\<close>, from three sources that lie outside the array, and the array is then
  \<^verbatim>\<open>cast\<close> to the matching packed structure. Reading the structure gives back the tag
  byte, the 32 filler bytes and the 4 id bytes that were written. The witness writes
  the tag 1.
\<close>

theorem parse_roundtrip_reads_back:
  assumes buf: "allocated m b 37"
    and tag: "load m t = Inr tg"
    and fil: "load_n m f 32 = Inr fl"
    and idn: "load_n m c 4 = Inr idb"
    and dt: "t + 1 \<le> b \<or> b + 37 \<le> t"
    and df: "f + 32 \<le> b \<or> b + 37 \<le> f"
    and dc: "c + 4 \<le> b \<or> b + 37 \<le> c"
  shows "parse_roundtrip \<lparr>array_data = b, array_L = 37\<rparr> \<lparr>slice_data = t, slice_L = 1\<rparr>
           \<lparr>slice_data = f, slice_L = 32\<rparr> \<lparr>slice_data = c, slice_L = 4\<rparr> m =
         Inr \<lparr>msg_tag = tg, msg_payload = fl, msg_id = idb\<rparr>"
proof -
  let ?m1 = "copy_elems m b t 1"
  let ?m2 = "copy_elems ?m1 (b + 1) f 32"
  let ?m3 = "copy_elems ?m2 (b + 33) c 4"
  have mt: "m t = Some tg"
    using tag by (simp add: load_def split: option.splits)
  have at: "allocated m t 1"
    using mt by (simp add: allocated_def)
  have af: "allocated m f 32" using fil by (rule load_n_allocated)
  have ac: "allocated m c 4" using idn by (rule load_n_allocated)
  have mf: "\<And>i. i < 32 \<Longrightarrow> m (f + i) = Some (fl ! i)" and lf: "length fl = 32"
    using fil by (simp_all add: load_n_eq)
  have mc: "\<And>i. i < 4 \<Longrightarrow> m (c + i) = Some (idb ! i)" and lc: "length idb = 4"
    using idn by (simp_all add: load_n_eq)
  have s1: "shl_Array 1 \<lparr>array_data = b, array_L = 37\<rparr> \<lparr>slice_data = t, slice_L = 1\<rparr> m =
              Inr (\<lparr>slice_data = b + 1, slice_L = 37 - 1\<rparr>, ?m1)"
    using dt by (intro shl_Array_ok buf at) auto
  have "allocated m (b + 1) (37 - 1)"
    by (rule allocated_offset [OF buf]) simp
  then have "allocated m (b + 1) 36" by simp
  then have b1: "allocated ?m1 (b + 1) 36"
    by (rule allocated_copy_elems [OF at])
  have f1: "allocated ?m1 f 32"
    by (rule allocated_copy_elems [OF at af])
  have s2: "shl_Slice 1 \<lparr>slice_data = b + 1, slice_L = 36\<rparr> \<lparr>slice_data = f, slice_L = 32\<rparr> ?m1 =
              Inr (\<lparr>slice_data = b + 1 + 32, slice_L = 36 - 32\<rparr>, ?m2)"
    using df by (intro shl_Slice_ok b1 f1) auto
  have "allocated ?m1 (b + 1 + 32) (36 - 32)"
    by (rule allocated_offset [OF b1]) simp
  moreover have "b + 1 + 32 = b + 33" "(36::nat) - 32 = 4" by simp_all
  ultimately have "allocated ?m1 (b + 33) 4" by (simp only:)
  then have b2: "allocated ?m2 (b + 33) 4"
    by (rule allocated_copy_elems [OF f1])
  have c2: "allocated ?m2 c 4"
    by (intro allocated_copy_elems f1 at ac)
  have s3: "shl_Slice 1 \<lparr>slice_data = b + 33, slice_L = 4\<rparr> \<lparr>slice_data = c, slice_L = 4\<rparr> ?m2 =
              Inr (\<lparr>slice_data = b + 33 + 4, slice_L = 4 - 4\<rparr>, ?m3)"
    using dc by (intro shl_Slice_ok b2 c2) auto
  have cs: "cast sizeof_Msg \<lparr>array_data = b, array_L = 37\<rparr> = Inr b"
    by (simp add: cast_eq sizeof_Msg_def)
  have r0: "?m3 b = Some tg"
    using mt by (simp add: copy_elems_def)
  have r1: "\<And>i. i < 32 \<Longrightarrow> ?m3 (b + 1 + i) = Some (fl ! i)"
    using df mf by (auto simp add: copy_elems_def)
  have r2: "\<And>i. i < 4 \<Longrightarrow> ?m3 (b + 33 + i) = Some (idb ! i)"
    using dc df mc by (auto simp add: copy_elems_def)
  have l0: "load ?m3 b = Inr tg"
    using r0 by (simp add: load_def)
  have l1: "load_n ?m3 (b + 1) 32 = Inr fl"
    using r1 lf by (simp add: load_n_eq)
  have l2: "load_n ?m3 (b + 33) 4 = Inr idb"
    using r2 lc by (simp add: load_n_eq)
  have rd: "read_Msg ?m3 b = Inr \<lparr>msg_tag = tg, msg_payload = fl, msg_id = idb\<rparr>"
    unfolding read_Msg_def l0 l1 l2 by simp
  have e: "(37::nat) - 1 = 36" "b + 1 + 32 = b + 33" "(36::nat) - 32 = 4"
    by simp_all
  show ?thesis
    unfolding parse_roundtrip_def
    by (simp only: s1 s2 s3 cs rd e ebind_simps prod.case)
qed


theorem parse_roundtrip_reads_back_witness:
  "parse_roundtrip \<lparr>array_data = 100, array_L = 37\<rparr> \<lparr>slice_data = 10, slice_L = 1\<rparr>
     \<lparr>slice_data = 20, slice_L = 32\<rparr> \<lparr>slice_data = 60, slice_L = 4\<rparr>
     (heap_of 100 (replicate 37 0) ++ heap_of 10 [1] ++ heap_of 20 (replicate 32 170)
        ++ heap_of 60 [222, 173, 190, 239]) =
   Inr \<lparr>msg_tag = 1, msg_payload = replicate 32 170, msg_id = [222, 173, 190, 239]\<rparr>"
proof -
  let ?m = "heap_of 100 (replicate 37 0) ++ heap_of 10 [1] ++ heap_of 20 (replicate 32 170)
        ++ heap_of 60 [222, 173, 190, 239 :: 8 word]"
  have buf: "allocated ?m 100 37"
    by (simp add: allocated_def heap_of_def map_add_def)
  have tag: "load ?m 10 = Inr 1"
    by (simp add: load_def heap_of_def map_add_def)
  have fil: "load_n ?m 20 32 = Inr (replicate 32 170)"
    by (simp add: load_n_eq heap_of_def map_add_def)
  have idn: "load_n ?m 60 4 = Inr [222, 173, 190, 239]"
    by (simp add: eval_nat_numeral load_def heap_of_def map_add_def)
  show ?thesis
    by (rule parse_roundtrip_reads_back [OF buf tag fil idn]) simp_all
qed

end
